theory Spec2Isabelle
  imports Main "HOL-Library.Multiset"
begin

unbundle bit_operations_syntax

section \<open>Python values and strings\<close>

text \<open>
  Strings are character lists. The two characters that cannot be written inside a
  string literal get a name each.
\<close>

abbreviation sq :: char where "sq \<equiv> CHR 0x27"
abbreviation bs :: char where "bs \<equiv> CHR 0x5C"

text \<open>
  The values that reach \<open>shellquote\<close>: the strings of an event (\<open>path\<close>,
  \<open>pathname\<close>, \<open>maskname\<close>) and its integers (\<open>mask\<close>, \<open>cookie\<close>, the literal 0).
\<close>

datatype pyval = PyStr string | PyInt int

fun str_nat :: "nat \<Rightarrow> string" where
  "str_nat n = (if n < 10 then [char_of (48 + n)] else str_nat (n div 10) @ [char_of (48 + n mod 10)])"

declare str_nat.simps [simp del]

definition str_int :: "int \<Rightarrow> string" where
  "str_int i = (if i < 0 then CHR ''-'' # str_nat (nat (- i)) else str_nat (nat i))"

text \<open>Python's \<open>str(v)\<close>.\<close>

fun str :: "pyval \<Rightarrow> string" where
  "str (PyStr s) = s"
| "str (PyInt i) = str_int i"

text \<open>\<open>s.replace("'", "'\\''")\<close>: every single quote becomes the four characters \<open>'\''\<close>.\<close>

fun replace_sq :: "string \<Rightarrow> string" where
  "replace_sq [] = []"
| "replace_sq (c # cs) = (if c = sq then [sq, bs, sq, sq] @ replace_sq cs else c # replace_sq cs)"

section \<open>EventHandler.shellquote\<close>

definition shellquote :: "pyval \<Rightarrow> string" where
  "shellquote string = [sq] @ replace_sq (str string) @ [sq]"

section \<open>The shell that receives the command line\<close>

text \<open>
  \<open>os.system\<close> hands the command line to \<open>sh -c\<close>. The part of the shell that the
  quoting is written against is its token recognition and quote removal (POSIX Shell
  Command Language, 2.2 Quoting and 2.3 Token Recognition):
  \<^item> blanks and newlines end a word, the operator characters are tokens of their own;
  \<^item> between single quotes every character stands for itself, up to the next single quote;
  \<^item> a backslash outside quotes makes the next character literal (and removes a newline);
  \<^item> between double quotes a backslash escapes only \<open>$\<close>, backquote, double quote,
    backslash and newline;
  \<^item> adjacent quoted and unquoted pieces form one word.
  Expansions (\<open>$\<close>, backquote, patterns, tilde) and comments are outside this
  fragment: \<open>sh_words\<close> answers \<open>None\<close> for a line that needs them, as for a line with
  an unterminated quote.
\<close>

abbreviation dq :: char where "dq \<equiv> CHR 0x22"
abbreviation bq :: char where "bq \<equiv> CHR 0x60"
abbreviation nl :: char where "nl \<equiv> CHR 0x0A"

datatype token = Word string | Op char

definition is_blank :: "char \<Rightarrow> bool" where
  "is_blank c \<longleftrightarrow> c = CHR '' '' \<or> c = CHR 0x09 \<or> c = nl"

definition is_op :: "char \<Rightarrow> bool" where
  "is_op c \<longleftrightarrow> c \<in> set ''|&;<>()''"

definition is_expansion :: "char \<Rightarrow> bool" where
  "is_expansion c \<longleftrightarrow> c = bq \<or> c \<in> set ''$*?[#~''"

fun cur_word :: "string option \<Rightarrow> string" where
  "cur_word None = []"
| "cur_word (Some w) = w"

fun emit :: "string option \<Rightarrow> token list \<Rightarrow> token list" where
  "emit None ts = ts"
| "emit (Some w) ts = Word w # ts"

text \<open>
  \<open>unquoted cur cs\<close>: outside quotes, \<open>cur\<close> the word under construction (\<open>None\<close>
  between words); \<open>squoted w cs\<close> and \<open>dquoted w cs\<close>: inside single and double quotes.
\<close>

fun unquoted :: "string option \<Rightarrow> string \<Rightarrow> token list option"
  and squoted :: "string \<Rightarrow> string \<Rightarrow> token list option"
  and dquoted :: "string \<Rightarrow> string \<Rightarrow> token list option" where
  "unquoted cur [] = Some (emit cur [])"
| "unquoted cur (c # cs) =
     (if c = sq then squoted (cur_word cur) cs
      else if c = dq then dquoted (cur_word cur) cs
      else if c = bs then
        (case cs of
           [] \<Rightarrow> None
         | d # ds \<Rightarrow> if d = nl then unquoted cur ds else unquoted (Some (cur_word cur @ [d])) ds)
      else if is_blank c then map_option (emit cur) (unquoted None cs)
      else if is_op c then map_option (\<lambda>ts. emit cur (Op c # ts)) (unquoted None cs)
      else if is_expansion c then None
      else unquoted (Some (cur_word cur @ [c])) cs)"
| "squoted w [] = None"
| "squoted w (c # cs) = (if c = sq then unquoted (Some w) cs else squoted (w @ [c]) cs)"
| "dquoted w [] = None"
| "dquoted w (c # cs) =
     (if c = dq then unquoted (Some w) cs
      else if c = bs then
        (case cs of
           [] \<Rightarrow> None
         | d # ds \<Rightarrow>
             if d = nl then dquoted w ds
             else if d = CHR ''$'' \<or> d = bq \<or> d = dq \<or> d = bs then dquoted (w @ [d]) ds
             else dquoted (w @ [bs, d]) ds)
      else if c = CHR ''$'' \<or> c = bq then None
      else dquoted (w @ [c]) cs)"

definition sh_words :: "string \<Rightarrow> token list option" where
  "sh_words line = unquoted None line"

section \<open>String helpers of the standard library\<close>

text \<open>
  \<open>str.strip()\<close> removes the characters for which \<open>str.isspace\<close> holds; among the
  code points below 256 these are 9 to 13, 28 to 32, 133 and 160.
\<close>

definition is_space :: "char \<Rightarrow> bool" where
  "is_space c \<longleftrightarrow>
     (let n = (of_char c :: nat) in (9 \<le> n \<and> n \<le> 13) \<or> (28 \<le> n \<and> n \<le> 32) \<or> n = 133 \<or> n = 160)"

definition strip :: "string \<Rightarrow> string" where
  "strip s = rev (dropWhile is_space (rev (dropWhile is_space s)))"

text \<open>\<open>s.split(sep)\<close> for a separator of one character: never an empty list.\<close>

fun split :: "char \<Rightarrow> string \<Rightarrow> string list" where
  "split sep [] = [[]]"
| "split sep (c # cs) =
     (if c = sep then [] # split sep cs
      else (case split sep cs of [] \<Rightarrow> [[c]] | w # ws \<Rightarrow> (c # w) # ws))"

text \<open>\<open>s.lower()\<close> on ASCII letters.\<close>

definition lower_char :: "char \<Rightarrow> char" where
  "lower_char c =
     (let n = (of_char c :: nat) in if 65 \<le> n \<and> n \<le> 90 then char_of (n + 32) else c)"

definition lower :: "string \<Rightarrow> string" where
  "lower s = map lower_char s"

section \<open>WatcherDaemon._parse_mask and WatcherDaemon._add_mask\<close>

text \<open>
  The twelve event flags are pyinotify's constants; the source only names them. They
  are a parameter of the mask functions.
\<close>

record flags =
  IN_ACCESS :: int
  IN_ATTRIB :: int
  IN_CLOSE_WRITE :: int
  IN_CLOSE_NOWRITE :: int
  IN_CREATE :: int
  IN_DELETE :: int
  IN_DELETE_SELF :: int
  IN_MODIFY :: int
  IN_MOVE_SELF :: int
  IN_MOVED_FROM :: int
  IN_MOVED_TO :: int
  IN_OPEN :: int

text \<open>The values of the Linux header \<open>inotify.h\<close>, for evaluation on concrete inputs.\<close>

definition linux_flags :: flags where
  "linux_flags =
     \<lparr>IN_ACCESS = 0x1, IN_ATTRIB = 0x4, IN_CLOSE_WRITE = 0x8, IN_CLOSE_NOWRITE = 0x10,
      IN_CREATE = 0x100, IN_DELETE = 0x200, IN_DELETE_SELF = 0x400, IN_MODIFY = 0x2,
      IN_MOVE_SELF = 0x800, IN_MOVED_FROM = 0x40, IN_MOVED_TO = 0x80, IN_OPEN = 0x20\<rparr>"

text \<open>The variable \<open>ret\<close> holds \<open>False\<close> until the first recognised token, an integer after it.\<close>

datatype mask_val = PyFalse | PyMask int

text \<open>\<open>not current_options\<close> holds for \<open>False\<close> and for the integer 0.\<close>

fun add_mask :: "int \<Rightarrow> mask_val \<Rightarrow> mask_val" where
  "add_mask new_option PyFalse = PyMask new_option"
| "add_mask new_option (PyMask current_options) =
     (if current_options = 0 then PyMask new_option
      else PyMask (current_options OR new_option))"

text \<open>The body of the loop of \<open>_parse_mask\<close>, for one element \<open>mask\<close> of \<open>masks\<close>.\<close>

definition parse_mask_step :: "flags \<Rightarrow> string \<Rightarrow> mask_val \<Rightarrow> mask_val" where
  "parse_mask_step F mask0 ret =
     (let mask = strip mask0 in
      if ''access'' = mask then add_mask (IN_ACCESS F) ret
      else if ''attribute_change'' = mask then add_mask (IN_ATTRIB F) ret
      else if ''write_close'' = mask then add_mask (IN_CLOSE_WRITE F) ret
      else if ''nowrite_close'' = mask then add_mask (IN_CLOSE_NOWRITE F) ret
      else if ''create'' = mask then add_mask (IN_CREATE F) ret
      else if ''delete'' = mask then add_mask (IN_DELETE F) ret
      else if ''self_delete'' = mask then add_mask (IN_DELETE_SELF F) ret
      else if ''modify'' = mask then add_mask (IN_MODIFY F) ret
      else if ''self_move'' = mask then add_mask (IN_MOVE_SELF F) ret
      else if ''move_from'' = mask then add_mask (IN_MOVED_FROM F) ret
      else if ''move_to'' = mask then add_mask (IN_MOVED_TO F) ret
      else if ''open'' = mask then add_mask (IN_OPEN F) ret
      else if ''all'' = mask then
        add_mask
          (IN_ACCESS F OR IN_ATTRIB F OR IN_CLOSE_WRITE F OR IN_CLOSE_NOWRITE F
           OR IN_CREATE F OR IN_DELETE F OR IN_DELETE_SELF F OR IN_MODIFY F
           OR IN_MOVE_SELF F OR IN_MOVED_FROM F OR IN_MOVED_TO F OR IN_OPEN F) ret
      else if ''move'' = mask then add_mask (IN_MOVED_FROM F OR IN_MOVED_TO F) ret
      else if ''close'' = mask then add_mask (IN_CLOSE_WRITE F OR IN_CLOSE_NOWRITE F) ret
      else ret)"

definition parse_mask :: "flags \<Rightarrow> string list \<Rightarrow> mask_val" where
  "parse_mask F masks = fold (parse_mask_step F) masks PyFalse"

subsection \<open>The token table of the specification\<close>

text \<open>
  The table of section 4.1 of the specification, written down from its words: each
  recognised token with the flags it expands to.
\<close>

definition or_list :: "int list \<Rightarrow> int" where
  "or_list xs = fold (OR) xs 0"

definition token_table :: "flags \<Rightarrow> (string \<times> int) list" where
  "token_table F =
     [(''access'', IN_ACCESS F),
      (''attribute_change'', IN_ATTRIB F),
      (''write_close'', IN_CLOSE_WRITE F),
      (''nowrite_close'', IN_CLOSE_NOWRITE F),
      (''create'', IN_CREATE F),
      (''delete'', IN_DELETE F),
      (''self_delete'', IN_DELETE_SELF F),
      (''modify'', IN_MODIFY F),
      (''self_move'', IN_MOVE_SELF F),
      (''move_from'', IN_MOVED_FROM F),
      (''move_to'', IN_MOVED_TO F),
      (''open'', IN_OPEN F),
      (''move'', or_list [IN_MOVED_FROM F, IN_MOVED_TO F]),
      (''close'', or_list [IN_CLOSE_WRITE F, IN_CLOSE_NOWRITE F]),
      (''all'', or_list [IN_ACCESS F, IN_ATTRIB F, IN_CLOSE_WRITE F, IN_CLOSE_NOWRITE F,
                         IN_CREATE F, IN_DELETE F, IN_DELETE_SELF F, IN_MODIFY F,
                         IN_MOVE_SELF F, IN_MOVED_FROM F, IN_MOVED_TO F, IN_OPEN F])]"

text \<open>The table value of a token; a token is recognised when it has one.\<close>

definition token_value :: "flags \<Rightarrow> string \<Rightarrow> int option" where
  "token_value F tok = map_of (token_table F) (strip tok)"

definition recognized :: "flags \<Rightarrow> string \<Rightarrow> bool" where
  "recognized F tok \<longleftrightarrow> token_value F tok \<noteq> None"

text \<open>Python's \<open>int(ret)\<close>: \<open>False\<close> counts as 0 (and \<open>False == 0\<close> holds).\<close>

fun mask_int :: "mask_val \<Rightarrow> int" where
  "mask_int PyFalse = 0"
| "mask_int (PyMask m) = m"

section \<open>Exceptions\<close>

text \<open>
  The exceptions that the calls of the source can raise: \<open>KeyError\<close> and \<open>ValueError\<close>
  from \<open>Template.substitute\<close> and \<open>getboolean\<close>; \<open>NoOptionError\<close> (option, section),
  \<open>NoSectionError\<close> and \<open>InterpolationError\<close> from \<open>config.get\<close>; \<open>IndexError\<close> from an
  index out of range; \<open>OSError\<close>, which the \<open>try\<close> statement of \<open>run_command\<close> names and
  which the constructors of pyinotify raise; \<open>RegexError\<close> (\<open>re.error\<close>) from
  \<open>ExcludeFilter\<close>; \<open>RuntimeError\<close> from the start of a thread; \<open>WatchManagerError\<close> from
  \<open>add_watch\<close>.
\<close>

datatype error =
    KeyError string
  | ValueError string
  | NoOptionError string string
  | NoSectionError string
  | InterpolationError string
  | IndexError
  | OSError string
  | RegexError string
  | RuntimeError string
  | WatchManagerError string

section \<open>string.Template\<close>

text \<open>
  The pattern of \<open>string.Template\<close>: after a \<open>$\<close> comes a second \<open>$\<close> (escaped), an
  identifier (named), an identifier in braces (braced), or nothing that fits (invalid).
  The identifier is \<open>[_a-z][_a-z0-9]*\<close>, ASCII only, letters of either case, as long as
  it can be.
\<close>

definition is_id_start :: "char \<Rightarrow> bool" where
  "is_id_start c \<longleftrightarrow>
     (let n = (of_char c :: nat) in c = CHR ''_'' \<or> (97 \<le> n \<and> n \<le> 122) \<or> (65 \<le> n \<and> n \<le> 90))"

definition is_id_char :: "char \<Rightarrow> bool" where
  "is_id_char c \<longleftrightarrow> is_id_start c \<or> (let n = (of_char c :: nat) in 48 \<le> n \<and> n \<le> 57)"

datatype piece = Lit char | Escaped | Named string | Invalid

text \<open>Does the text after \<open>${\<close> hold an identifier and the closing brace?\<close>

definition braced :: "string \<Rightarrow> bool" where
  "braced ds \<longleftrightarrow>
     (case ds of [] \<Rightarrow> False | d # _ \<Rightarrow> is_id_start d)
     \<and> (case dropWhile is_id_char ds of [] \<Rightarrow> False | e # _ \<Rightarrow> e = CHR ''}'')"

text \<open>The matches of the pattern in a template, left to right, with the text between them.\<close>

function pieces :: "string \<Rightarrow> piece list" where
  "pieces [] = []"
| "pieces (c # cs) =
     (if c \<noteq> CHR ''$'' then Lit c # pieces cs
      else if cs = [] then [Invalid]
      else if hd cs = CHR ''$'' then Escaped # pieces (tl cs)
      else if is_id_start (hd cs) then
        Named (takeWhile is_id_char cs) # pieces (dropWhile is_id_char cs)
      else if hd cs = CHR ''{'' \<and> braced (tl cs) then
        Named (takeWhile is_id_char (tl cs)) # pieces (tl (dropWhile is_id_char (tl cs)))
      else Invalid # pieces cs)"
  by pat_completeness auto
termination
proof (relation "measure length")
  fix c :: char and cs :: string
  have le: "length (dropWhile is_id_char xs) \<le> length xs" for xs :: string
    by (rule length_dropWhile_le)
  show "(tl cs, c # cs) \<in> measure length" by simp
  show "(dropWhile is_id_char cs, c # cs) \<in> measure length"
    using le [of cs] by simp
  show "(tl (dropWhile is_id_char (tl cs)), c # cs) \<in> measure length"
    using le [of "tl cs"] by simp
qed simp_all

declare pieces.simps [simp del]

text \<open>
  \<open>Template(template).substitute(**kws)\<close>: the pieces are converted left to right, and the
  first one that fails raises: \<open>KeyError\<close> for a name that is not a keyword, \<open>ValueError\<close>
  for an invalid placeholder (its message, with line and column, is shortened here).
\<close>

fun convert :: "(string \<rightharpoonup> string) \<Rightarrow> piece list \<Rightarrow> error + string" where
  "convert kws [] = Inr []"
| "convert kws (Lit c # ps) =
     (case convert kws ps of Inl e \<Rightarrow> Inl e | Inr r \<Rightarrow> Inr (c # r))"
| "convert kws (Escaped # ps) =
     (case convert kws ps of Inl e \<Rightarrow> Inl e | Inr r \<Rightarrow> Inr (CHR ''$'' # r))"
| "convert kws (Named n # ps) =
     (case kws n of
        None \<Rightarrow> Inl (KeyError n)
      | Some v \<Rightarrow> (case convert kws ps of Inl e \<Rightarrow> Inl e | Inr r \<Rightarrow> Inr (v @ r)))"
| "convert kws (Invalid # ps) = Inl (ValueError ''Invalid placeholder in string'')"

definition substitute :: "string \<Rightarrow> (string \<rightharpoonup> string) \<Rightarrow> error + string" where
  "substitute template kws = convert kws (pieces template)"

section \<open>Events, the handler and the world it acts on\<close>

text \<open>
  A pyinotify event as \<open>run_command\<close> reads it. The attribute \<open>cookie\<close> exists only on the
  two halves of a move: \<open>None\<close> is \<open>hasattr(event, "cookie")\<close> being false.
\<close>

record event =
  path :: string
  pathname :: string
  maskname :: string
  mask :: int
  cookie :: "int option"

record EventHandler =
  command :: string

text \<open>
  What the daemon does to its surroundings: the lines it writes to standard output
  (\<open>log\<close> and \<open>print\<close>; the time stamp that \<open>log\<close> puts in front is the clock's and is
  left out), the command lines it hands to \<open>os.system\<close>, and the subscriptions of
  \<open>run\<close>: the results of \<open>add_watch\<close>, the notifiers built and the notifiers started.
\<close>

record watch =
  folder :: string
  w_mask :: mask_val
  rec :: bool
  auto_add :: bool
  exclude_filter :: "string list option"

type_synonym wdd = "(string \<times> int) list"

record notifier =
  watch_manager :: watch
  handler :: EventHandler

record world =
  stdout :: "string list"
  system_calls :: "string list"
  wdds :: "wdd list"
  notifiers :: "notifier list"
  started :: "notifier list"

definition log :: "string \<Rightarrow> world \<Rightarrow> world" where
  "log msg w = w\<lparr>stdout := stdout w @ [msg]\<rparr>"

text \<open>\<open>print(a, b)\<close> writes the two values with a blank between them.\<close>

definition print2 :: "string \<Rightarrow> string \<Rightarrow> world \<Rightarrow> world" where
  "print2 a b w = w\<lparr>stdout := stdout w @ [a @ '' '' @ b]\<rparr>"

definition print1 :: "string \<Rightarrow> world \<Rightarrow> world" where
  "print1 a w = w\<lparr>stdout := stdout w @ [a]\<rparr>"

subsection \<open>EventHandler.run_command\<close>

text \<open>The keyword arguments of \<open>substitute\<close>.\<close>

definition kwargs :: "event \<Rightarrow> (string \<times> string) list" where
  "kwargs event =
     [(''watched'', shellquote (PyStr (path event))),
      (''filename'', shellquote (PyStr (pathname event))),
      (''tflags'', shellquote (PyStr (maskname event))),
      (''nflags'', shellquote (PyInt (mask event))),
      (''cookie'', shellquote (PyInt (case cookie event of Some c \<Rightarrow> c | None \<Rightarrow> 0)))]"

text \<open>
  \<open>os.system\<close> is the platform's: \<open>system c\<close> is what the call does for the command line
  \<open>c\<close>, an exit status or an exception. The \<open>try\<close> statement encloses this call only, and
  catches \<open>OSError\<close> only.
\<close>

definition run_command ::
  "(string \<Rightarrow> error + int) \<Rightarrow> EventHandler \<Rightarrow> event \<Rightarrow> world \<Rightarrow> (error + unit) \<times> world" where
  "run_command system self event w =
     (case substitute (command self) (map_of (kwargs event)) of
        Inl e \<Rightarrow> (Inl e, w)
      | Inr cmd \<Rightarrow>
          (let w1 = w\<lparr>system_calls := system_calls w @ [cmd]\<rparr> in
           case system cmd of
             Inr status \<Rightarrow> (Inr (), w1)
           | Inl (OSError err) \<Rightarrow>
               (Inr (), print1 (''Failed to run command '' @ [sq] @ cmd @ [sq] @ '' '' @ err) w1)
           | Inl e \<Rightarrow> (Inl e, w1)))"

subsection \<open>The methods for the event kinds\<close>

text \<open>
  One method for each kind of event, named \<open>process_in_\<close> and the kind in lower case:
  each prints its label and the path of the event, then runs the command.
\<close>

definition process_in_access where
  "process_in_access system self event w =
     run_command system self event (print2 ''Access: '' (pathname event) w)"

definition process_in_attrib where
  "process_in_attrib system self event w =
     run_command system self event (print2 ''Attrib: '' (pathname event) w)"

definition process_in_close_write where
  "process_in_close_write system self event w =
     run_command system self event (print2 ''Close write: '' (pathname event) w)"

definition process_in_close_nowrite where
  "process_in_close_nowrite system self event w =
     run_command system self event (print2 ''Close nowrite: '' (pathname event) w)"

definition process_in_create where
  "process_in_create system self event w =
     run_command system self event (print2 ''Creating: '' (pathname event) w)"

definition process_in_delete where
  "process_in_delete system self event w =
     run_command system self event (print2 ''Deleteing: '' (pathname event) w)"

definition process_in_modify where
  "process_in_modify system self event w =
     run_command system self event (print2 ''Modify: '' (pathname event) w)"

definition process_in_move_self where
  "process_in_move_self system self event w =
     run_command system self event (print2 ''Move self: '' (pathname event) w)"

definition process_in_moved_from where
  "process_in_moved_from system self event w =
     run_command system self event (print2 ''Moved from: '' (pathname event) w)"

definition process_in_moved_to where
  "process_in_moved_to system self event w =
     run_command system self event (print2 ''Moved to: '' (pathname event) w)"

definition process_in_open where
  "process_in_open system self event w =
     run_command system self event (print2 ''Opened: '' (pathname event) w)"

subsection \<open>The choice of the method by its name\<close>

text \<open>
  The notifier calls the handler object with each event, and the class \<open>ProcessEvent\<close>
  of pyinotify, which \<open>EventHandler\<close> extends, chooses the method by name: first
  \<open>process_\<close> followed by the name of the event kind (\<open>IN_CREATE\<close>, \<open>IN_CLOSE_WRITE\<close>,
  ...), then \<open>process_IN_\<close> followed by the second word of that name, and last
  \<open>process_default\<close>. Python compares attribute names letter by letter, upper and lower
  case apart. The source defines eleven methods and inherits \<open>process_default\<close> and
  \<open>process_IN_Q_OVERFLOW\<close>, which neither print to standard output nor run a command.
\<close>

datatype meth =
    in_access | in_attrib | in_close_write | in_close_nowrite | in_create | in_delete
  | in_modify | in_move_self | in_moved_from | in_moved_to | in_open

fun call ::
  "(string \<Rightarrow> error + int) \<Rightarrow> EventHandler \<Rightarrow> meth \<Rightarrow> event \<Rightarrow> world \<Rightarrow> (error + unit) \<times> world" where
  "call system self in_access = process_in_access system self"
| "call system self in_attrib = process_in_attrib system self"
| "call system self in_close_write = process_in_close_write system self"
| "call system self in_close_nowrite = process_in_close_nowrite system self"
| "call system self in_create = process_in_create system self"
| "call system self in_delete = process_in_delete system self"
| "call system self in_modify = process_in_modify system self"
| "call system self in_move_self = process_in_move_self system self"
| "call system self in_moved_from = process_in_moved_from system self"
| "call system self in_moved_to = process_in_moved_to system self"
| "call system self in_open = process_in_open system self"

datatype attr = Own meth | Inherited

text \<open>\<open>getattr(self, name, None)\<close> for the names that start with \<open>process_\<close>.\<close>

definition getattr :: "string \<Rightarrow> attr option" where
  "getattr name =
     map_of
       [(''process_in_access'', Own in_access),
        (''process_in_attrib'', Own in_attrib),
        (''process_in_close_write'', Own in_close_write),
        (''process_in_close_nowrite'', Own in_close_nowrite),
        (''process_in_create'', Own in_create),
        (''process_in_delete'', Own in_delete),
        (''process_in_modify'', Own in_modify),
        (''process_in_move_self'', Own in_move_self),
        (''process_in_moved_from'', Own in_moved_from),
        (''process_in_moved_to'', Own in_moved_to),
        (''process_in_open'', Own in_open),
        (''process_default'', Inherited),
        (''process_IN_Q_OVERFLOW'', Inherited)] name"

fun invoke ::
  "(string \<Rightarrow> error + int) \<Rightarrow> EventHandler \<Rightarrow> attr \<Rightarrow> event \<Rightarrow> world \<Rightarrow> (error + unit) \<times> world" where
  "invoke system self (Own m) event w = call system self m event w"
| "invoke system self Inherited event w = (Inr (), w)"

text \<open>
  The handler called with an event of the kind \<open>kind\<close>; \<open>kind.split('_')[1]\<close> raises
  \<open>IndexError\<close> for a name without an underscore.
\<close>

definition dispatch ::
  "(string \<Rightarrow> error + int) \<Rightarrow> EventHandler \<Rightarrow> string \<Rightarrow> event \<Rightarrow> world \<Rightarrow> (error + unit) \<times> world" where
  "dispatch system self kind event w =
     (case getattr (''process_'' @ kind) of
        Some a \<Rightarrow> invoke system self a event w
      | None \<Rightarrow>
          (case split CHR ''_'' kind of
             first # family # rest \<Rightarrow>
               (case getattr (''process_IN_'' @ family) of
                  Some a \<Rightarrow> invoke system self a event w
                | None \<Rightarrow> invoke system self Inherited event w)
           | _ \<Rightarrow> (Inl IndexError, w)))"

section \<open>The configuration\<close>

text \<open>
  The \<open>ConfigParser\<close> object is handed to the daemon by the loader: \<open>sections\<close> are the
  names of its sections, in the order of the file and without \<open>DEFAULT\<close>, and \<open>get\<close> is
  what \<open>config.get(section, option)\<close> answers: the value after interpolation, or the
  exception (\<open>NoOptionError\<close>, \<open>InterpolationError\<close>, ...).
\<close>

record config =
  sections :: "string list"
  get :: "string \<Rightarrow> string \<Rightarrow> error + string"

text \<open>\<open>getboolean\<close> converts the value that \<open>get\<close> answers.\<close>

definition getboolean :: "config \<Rightarrow> string \<Rightarrow> string \<Rightarrow> error + bool" where
  "getboolean cfg section option =
     (case get cfg section option of
        Inl e \<Rightarrow> Inl e
      | Inr v \<Rightarrow>
          if lower v \<in> set [''1'', ''yes'', ''true'', ''on''] then Inr True
          else if lower v \<in> set [''0'', ''no'', ''false'', ''off''] then Inr False
          else Inl (ValueError (''Not a boolean: '' @ v)))"

section \<open>WatcherDaemon.run\<close>

text \<open>
  What pyinotify answers to the calls of \<open>run\<close>. \<open>ExcludeFilter\<close> compiles the patterns
  and raises for one that is not a regular expression. The constructors
  \<open>WatchManager\<close> and \<open>ThreadedNotifier\<close> and the method \<open>add_watch\<close> depend on the state
  of the system: their first argument here is the section whose turn of the loop
  makes the call. \<open>add_watch\<close> answers with the watch descriptors, a negative one for a
  path it could not watch, or raises. \<open>start\<close> is the start of the notifier at the given
  position of the list.
\<close>

record pyinotify =
  ExcludeFilter :: "string list \<Rightarrow> error option"
  WatchManager :: "string \<Rightarrow> error option"
  add_watch :: "string \<Rightarrow> watch \<Rightarrow> error + wdd"
  ThreadedNotifier :: "string \<Rightarrow> error option"
  start :: "nat \<Rightarrow> error option"

text \<open>
  The body of the loop over the sections, from the line that computes the mask to the
  call of \<open>add_watch\<close>. The calls are made in the order of the source, and the first
  that raises ends the body.
\<close>

definition job ::
  "pyinotify \<Rightarrow> flags \<Rightarrow> config \<Rightarrow> string \<Rightarrow> error + (wdd \<times> watch \<times> EventHandler)" where
  "job L F cfg section =
     (case get cfg section ''events'' of Inl e \<Rightarrow> Inl e | Inr events \<Rightarrow>
     (case get cfg section ''watch'' of Inl e \<Rightarrow> Inl e | Inr fld \<Rightarrow>
     (case getboolean cfg section ''recursive'' of Inl e \<Rightarrow> Inl e | Inr recursive \<Rightarrow>
     (case getboolean cfg section ''autoadd'' of Inl e \<Rightarrow> Inl e | Inr autoadd \<Rightarrow>
     (case get cfg section ''excluded'' of Inl e \<Rightarrow> Inl e | Inr excluded \<Rightarrow>
     (case get cfg section ''command'' of Inl e \<Rightarrow> Inl e | Inr cmd \<Rightarrow>
     (case (if strip excluded = [] then None else ExcludeFilter L (split CHR '','' excluded)) of
        Some e \<Rightarrow> Inl e
      | None \<Rightarrow>
     (case WatchManager L section of
        Some e \<Rightarrow> Inl e
      | None \<Rightarrow>
       (let excl = (if strip excluded = [] then None else Some (split CHR '','' excluded));
            wm = \<lparr>folder = fld, w_mask = parse_mask F (split CHR '','' events),
                  rec = recursive, auto_add = autoadd, exclude_filter = excl\<rparr>
        in case add_watch L section wm of
             Inl e \<Rightarrow> Inl e
           | Inr wdd \<Rightarrow> Inr (wdd, wm, \<lparr>command = cmd\<rparr>))))))))))"

text \<open>The whole body, the construction of the notifier included: the notifier it appends.\<close>

definition turn :: "pyinotify \<Rightarrow> flags \<Rightarrow> config \<Rightarrow> string \<Rightarrow> error + notifier" where
  "turn L F cfg section =
     (case job L F cfg section of
        Inl e \<Rightarrow> Inl e
      | Inr (wdd, wm, h) \<Rightarrow>
          (case ThreadedNotifier L section of
             Some e \<Rightarrow> Inl e
           | None \<Rightarrow> Inr \<lparr>watch_manager = wm, handler = h\<rparr>))"

text \<open>One turn of the loop on the world: the log line first, then the body.\<close>

definition setup_section ::
  "pyinotify \<Rightarrow> flags \<Rightarrow> config \<Rightarrow> string \<Rightarrow> world \<Rightarrow> (error + unit) \<times> world" where
  "setup_section L F cfg section w =
     (case get cfg section ''watch'' of
        Inl e \<Rightarrow> (Inl e, w)
      | Inr fld \<Rightarrow>
          (let w1 = log (section @ '': '' @ fld) w in
           case job L F cfg section of
             Inl e \<Rightarrow> (Inl e, w1)
           | Inr (wdd, wm, h) \<Rightarrow>
               (let w2 = w1\<lparr>wdds := wdds w1 @ [wdd]\<rparr> in
                case ThreadedNotifier L section of
                  Some e \<Rightarrow> (Inl e, w2)
                | None \<Rightarrow>
                    (Inr (), w2\<lparr>notifiers := notifiers w2 @ [\<lparr>watch_manager = wm, handler = h\<rparr>]\<rparr>))))"

fun setup_sections ::
  "pyinotify \<Rightarrow> flags \<Rightarrow> config \<Rightarrow> string list \<Rightarrow> world \<Rightarrow> (error + unit) \<times> world" where
  "setup_sections L F cfg [] w = (Inr (), w)"
| "setup_sections L F cfg (section # rest) w =
     (case setup_section L F cfg section w of
        (Inl e, w') \<Rightarrow> (Inl e, w')
      | (Inr u, w') \<Rightarrow> setup_sections L F cfg rest w')"

text \<open>The second loop: \<open>notifier.start()\<close> for each notifier, from position \<open>k\<close> on.\<close>

fun start_all :: "pyinotify \<Rightarrow> nat \<Rightarrow> notifier list \<Rightarrow> world \<Rightarrow> (error + unit) \<times> world" where
  "start_all L k [] w = (Inr (), w)"
| "start_all L k (n # ns) w =
     (case start L k of
        Some e \<Rightarrow> (Inl e, w)
      | None \<Rightarrow> start_all L (Suc k) ns (w\<lparr>started := started w @ [n]\<rparr>))"

text \<open>
  \<open>run\<close>: the two lists start empty, every section is set up, and only after the loop
  are the notifiers started. An exception raised in the loop leaves \<open>run\<close> at once.
\<close>

definition run :: "pyinotify \<Rightarrow> flags \<Rightarrow> config \<Rightarrow> world \<Rightarrow> (error + unit) \<times> world" where
  "run L F cfg w =
     (let w0 = (log ''Daemon started'' w)\<lparr>wdds := [], notifiers := []\<rparr> in
      case setup_sections L F cfg (sections cfg) w0 of
        (Inl e, w1) \<Rightarrow> (Inl e, w1)
      | (Inr u, w1) \<Rightarrow> start_all L 0 (notifiers w1) w1)"

subsection \<open>Concrete inputs\<close>

text \<open>
  The configuration object of a file whose values hold no percent sign, so that
  interpolation leaves them as they are: the options of \<open>DEFAULT\<close> and the sections
  with their options. An option is looked up in the section first and in \<open>DEFAULT\<close>
  next.
\<close>

definition parsed ::
  "(string \<times> string) list \<Rightarrow> (string \<times> (string \<times> string) list) list \<Rightarrow> config" where
  "parsed defaults section_list =
     \<lparr>sections = map fst section_list,
      get = (\<lambda>section option.
        case (if section = ''DEFAULT'' then Some [] else map_of section_list section) of
          None \<Rightarrow> Inl (NoSectionError section)
        | Some opts \<Rightarrow>
            (case map_of opts option of
               Some v \<Rightarrow> Inr v
             | None \<Rightarrow>
                 (case map_of defaults option of
                    Some v \<Rightarrow> Inr v
                  | None \<Rightarrow> Inl (NoOptionError option section))))\<rparr>"

text \<open>
  An empty world; a pyinotify for which every call succeeds, \<open>add_watch\<close> answering
  with a negative descriptor for the path \<open>/nonexistent\<close> as it does by default for a
  path it cannot watch; an \<open>os.system\<close> whose commands succeed, and one whose shell
  cannot find the command (wait status 32512, exit code 127).
\<close>

definition world0 :: world where
  "world0 = \<lparr>stdout = [], system_calls = [], wdds = [], notifiers = [], started = []\<rparr>"

definition library_ok :: pyinotify where
  "library_ok =
     \<lparr>ExcludeFilter = (\<lambda>patterns. None),
      WatchManager = (\<lambda>section. None),
      add_watch = (\<lambda>section wm.
        Inr [(folder wm, if folder wm = ''/nonexistent'' then - 1 else 1)]),
      ThreadedNotifier = (\<lambda>section. None),
      start = (\<lambda>k. None)\<rparr>"

definition system_ok :: "string \<Rightarrow> error + int" where
  "system_ok c = Inr 0"

definition system_not_found :: "string \<Rightarrow> error + int" where
  "system_not_found c = Inr 32512"

text \<open>The watch specification of the example of the specification, as a configuration.\<close>

definition daemon_options :: "(string \<times> string) list" where
  "daemon_options =
     [(''logfile'', ''/var/log/watcher.log''), (''pidfile'', ''/var/run/watcher.pid'')]"

definition example_options :: "(string \<times> string) list" where
  "example_options =
     [(''watch'', ''/tmp/x''), (''events'', ''create,delete''), (''recursive'', ''false''),
      (''autoadd'', ''false''), (''excluded'', []), (''command'', ''echo ${filename}'')]"

definition example_config :: config where
  "example_config = parsed daemon_options [(''job1'', example_options)]"

definition example_event :: event where
  "example_event =
     \<lparr>path = ''/tmp/x'', pathname = ''/tmp/x/a.txt'', maskname = ''IN_CREATE'', mask = 256,
      cookie = None\<rparr>"

text \<open>A configuration whose first section lacks the option \<open>recursive\<close>.\<close>

definition broken_config :: config where
  "broken_config =
     parsed daemon_options
       [(''bad'', [(''watch'', ''/tmp/y''), (''events'', ''modify''), (''autoadd'', ''false''),
                   (''excluded'', []), (''command'', ''true'')]),
        (''job1'', example_options)]"

text \<open>A configuration whose first section watches a path that does not exist.\<close>

definition missing_path_config :: config where
  "missing_path_config =
     parsed daemon_options
       [(''gone'', [(''watch'', ''/nonexistent''), (''events'', ''modify''),
                    (''recursive'', ''false''), (''autoadd'', ''false''), (''excluded'', []),
                    (''command'', ''true'')]),
        (''job1'', example_options)]"

section \<open>Properties of the quoting\<close>

lemma squoted_replace_sq:
  "squoted w (replace_sq s @ sq # rest) = unquoted (Some (w @ s)) rest"
  by (induction s arbitrary: w) auto

lemma unquoted_shellquote:
  "unquoted cur (shellquote v @ rest) = unquoted (Some (cur_word cur @ str v)) rest"
  by (simp add: shellquote_def squoted_replace_sq)

lemma replace_sq_concat:
  "replace_sq s = concat (map (\<lambda>c. if c = sq then [sq, bs, sq, sq] else [c]) s)"
  by (induction s) simp_all

text \<open>
  C1. For every string \<open>s\<close>, \<open>shellquote\<close> puts \<open>s\<close> between single quotes with each
  single quote of \<open>s\<close> replaced by the four characters quote, backslash, quote, quote;
  the shell reads the result as exactly one word, equal to \<open>s\<close>. The same holds in the
  middle of a command line: wherever the quoted value stands outside quotes, it adds
  the characters of \<open>s\<close> to the word under construction and nothing else, so no
  character of \<open>s\<close> is read as shell syntax.
\<close>

theorem shellquote_roundtrip:
  "shellquote (PyStr s) = [sq] @ concat (map (\<lambda>c. if c = sq then [sq, bs, sq, sq] else [c]) s) @ [sq]
   \<and> sh_words (shellquote (PyStr s)) = Some [Word s]
   \<and> unquoted cur (shellquote (PyStr s) @ rest) = unquoted (Some (cur_word cur @ s)) rest"
proof -
  have "shellquote (PyStr s) = [sq] @ concat (map (\<lambda>c. if c = sq then [sq, bs, sq, sq] else [c]) s) @ [sq]"
    by (simp add: shellquote_def replace_sq_concat)
  moreover have "sh_words (shellquote (PyStr s)) = Some [Word s]"
    using unquoted_shellquote [of None "PyStr s" "[]"] by (simp add: sh_words_def)
  moreover have "unquoted cur (shellquote (PyStr s) @ rest) = unquoted (Some (cur_word cur @ s)) rest"
    using unquoted_shellquote [of cur "PyStr s" rest] by simp
  ultimately show ?thesis by simp
qed

theorem shellquote_roundtrip_witness:
  "sh_words (shellquote (PyStr ([CHR ''a'', sq] @ ''; rm -rf $HOME''))) =
     Some [Word ([CHR ''a'', sq] @ ''; rm -rf $HOME'')]
   \<and> sh_words (''echo '' @ shellquote (PyStr ([CHR ''a'', sq] @ ''; rm -rf $HOME''))) =
     Some [Word ''echo'', Word ([CHR ''a'', sq] @ ''; rm -rf $HOME'')]"
proof -
  note rt = shellquote_roundtrip [of "[CHR ''a'', sq] @ ''; rm -rf $HOME''" None "[]"]
  have one: "sh_words (shellquote (PyStr ([CHR ''a'', sq] @ ''; rm -rf $HOME''))) =
      Some [Word ([CHR ''a'', sq] @ ''; rm -rf $HOME'')]"
    using rt by blast
  then have unq: "unquoted None (shellquote (PyStr ([CHR ''a'', sq] @ ''; rm -rf $HOME''))) =
      Some [Word ([CHR ''a'', sq] @ ''; rm -rf $HOME'')]"
    by (simp only: sh_words_def)
  have echo: "sh_words (''echo '' @ q) = map_option (emit (Some ''echo'')) (unquoted None q)" for q
    by (simp add: sh_words_def is_blank_def is_op_def is_expansion_def)
  have "sh_words (''echo '' @ shellquote (PyStr ([CHR ''a'', sq] @ ''; rm -rf $HOME''))) =
      Some [Word ''echo'', Word ([CHR ''a'', sq] @ ''; rm -rf $HOME'')]"
    by (simp only: echo unq) simp
  with one show ?thesis by (rule conjI)
qed

section \<open>Properties of the mask resolver\<close>

lemma add_mask_or: "add_mask v ret = PyMask (mask_int ret OR v)"
  by (cases ret) simp_all

lemma parse_mask_step_table:
  "parse_mask_step F tok ret =
     (case token_value F tok of None \<Rightarrow> ret | Some v \<Rightarrow> add_mask v ret)"
  unfolding parse_mask_step_def token_value_def Let_def
  by (simp add: eq_commute [where b = "strip tok"] token_table_def or_list_def ac_simps)

lemma fold_or: "fold (OR) xs (a::int) = a OR fold (OR) xs 0"
proof (induction xs arbitrary: a)
  case Nil
  then show ?case by simp
next
  case (Cons x xs)
  show ?case
    using Cons.IH [of "x OR a"] Cons.IH [of "x OR 0"] by (simp add: ac_simps)
qed

lemma or_list_Nil: "or_list [] = 0"
  by (simp add: or_list_def)

lemma or_list_Cons: "or_list (x # xs) = x OR or_list xs"
  using fold_or [of xs x] by (simp add: or_list_def)

lemma or_list_mset: "mset xs = mset ys \<Longrightarrow> or_list xs = or_list ys"
  unfolding or_list_def
  by (rule arg_cong [where f = "\<lambda>f. f 0"], rule fold_multiset_equiv)
    (auto simp: fun_eq_iff ac_simps)

lemma map_filter_none:
  "\<forall>x \<in> set xs. f x = None \<Longrightarrow> List.map_filter f xs = []"
  by (induction xs) simp_all

lemma map_filter_all:
  "\<forall>x \<in> set xs. f x \<noteq> None \<Longrightarrow> List.map_filter f xs = map (\<lambda>x. the (f x)) xs"
  by (induction xs) auto

lemma fold_parse_mask_step:
  "fold (parse_mask_step F) masks ret =
     (if \<forall>tok \<in> set masks. token_value F tok = None then ret
      else PyMask (mask_int ret OR or_list (List.map_filter (token_value F) masks)))"
proof (induction masks arbitrary: ret)
  case Nil
  then show ?case by simp
next
  case (Cons tok masks)
  show ?case
  proof (cases "token_value F tok")
    case None
    then have "parse_mask_step F tok ret = ret"
      by (simp add: parse_mask_step_table)
    with None show ?thesis
      by (simp add: Cons.IH)
  next
    case (Some v)
    then have step: "parse_mask_step F tok ret = PyMask (mask_int ret OR v)"
      by (simp add: parse_mask_step_table add_mask_or)
    from Some step show ?thesis
      by (auto simp: Cons.IH or_list_Cons or_list_Nil map_filter_none ac_simps)
  qed
qed

lemma parse_mask_eq:
  "parse_mask F masks =
     (if \<forall>tok \<in> set masks. token_value F tok = None then PyFalse
      else PyMask (or_list (List.map_filter (token_value F) masks)))"
  by (simp add: parse_mask_def fold_parse_mask_step)

lemma mset_map_filter:
  "mset xs = mset ys \<Longrightarrow> mset (List.map_filter f xs) = mset (List.map_filter f ys)"
proof -
  assume eq: "mset xs = mset ys"
  have "mset (List.map_filter f zs) = image_mset (the \<circ> f) (filter_mset (\<lambda>x. f x \<noteq> None) (mset zs))"
    for zs
    by (simp add: List.map_filter_def)
  with eq show ?thesis by simp
qed

lemma parse_mask_mset:
  assumes "mset xs = mset ys"
  shows "parse_mask F xs = parse_mask F ys"
proof -
  have "set xs = set ys"
    using assms by (rule mset_eq_setD)
  moreover have "or_list (List.map_filter (token_value F) xs) =
      or_list (List.map_filter (token_value F) ys)"
    using assms by (intro or_list_mset mset_map_filter)
  ultimately show ?thesis
    by (simp add: parse_mask_eq)
qed

lemma strip_literal:
  "strip ''move'' = ''move''" "strip ''close'' = ''close''" "strip ''all'' = ''all''"
  by (simp_all add: strip_def is_space_def)

lemma parse_mask_single:
  "parse_mask F [tok] = (case token_value F tok of None \<Rightarrow> PyFalse | Some v \<Rightarrow> PyMask v)"
  by (simp add: parse_mask_def parse_mask_step_table split: option.splits)

text \<open>
  C4. When every token of the list is recognised, the result of \<open>_parse_mask\<close> is the
  bitwise OR of the table values of the tokens: as an integer for every such list
  (for the empty list the result is \<open>False\<close>, which is 0), and as the integer itself
  when the list is not empty. Reordering the tokens does not change the result.
  \<open>move\<close>, \<open>close\<close> and \<open>all\<close> stand for the two move flags, the two close flags and
  all twelve flags.
\<close>

theorem parse_mask_is_or_of_table:
  assumes "\<forall>tok \<in> set masks. recognized F tok"
  shows "mask_int (parse_mask F masks) = or_list (map (\<lambda>tok. the (token_value F tok)) masks)
    \<and> (masks \<noteq> [] \<longrightarrow>
         parse_mask F masks = PyMask (or_list (map (\<lambda>tok. the (token_value F tok)) masks)))
    \<and> (\<forall>masks'. mset masks' = mset masks \<longrightarrow> parse_mask F masks' = parse_mask F masks)
    \<and> parse_mask F [''move''] = PyMask (IN_MOVED_FROM F OR IN_MOVED_TO F)
    \<and> parse_mask F [''close''] = PyMask (IN_CLOSE_WRITE F OR IN_CLOSE_NOWRITE F)
    \<and> parse_mask F [''all''] =
        PyMask (IN_ACCESS F OR IN_ATTRIB F OR IN_CLOSE_WRITE F OR IN_CLOSE_NOWRITE F
                OR IN_CREATE F OR IN_DELETE F OR IN_DELETE_SELF F OR IN_MODIFY F
                OR IN_MOVE_SELF F OR IN_MOVED_FROM F OR IN_MOVED_TO F OR IN_OPEN F)"
proof -
  from assms have all: "\<forall>tok \<in> set masks. token_value F tok \<noteq> None"
    by (simp add: recognized_def)
  then have vals: "List.map_filter (token_value F) masks = map (\<lambda>tok. the (token_value F tok)) masks"
    by (rule map_filter_all)
  have int: "mask_int (parse_mask F masks) = or_list (map (\<lambda>tok. the (token_value F tok)) masks)"
  proof (cases masks)
    case Nil
    then show ?thesis by (simp add: parse_mask_def or_list_Nil)
  next
    case (Cons tok rest)
    with all have "\<not> (\<forall>tok \<in> set masks. token_value F tok = None)" by auto
    then have "parse_mask F masks = PyMask (or_list (List.map_filter (token_value F) masks))"
      unfolding parse_mask_eq by (rule if_not_P)
    then show ?thesis by (simp add: vals)
  qed
  have nonempty: "masks \<noteq> [] \<longrightarrow>
      parse_mask F masks = PyMask (or_list (map (\<lambda>tok. the (token_value F tok)) masks))"
  proof
    assume "masks \<noteq> []"
    then obtain tok where "tok \<in> set masks" by (cases masks) auto
    with all have "\<not> (\<forall>tok \<in> set masks. token_value F tok = None)" by auto
    then have "parse_mask F masks = PyMask (or_list (List.map_filter (token_value F) masks))"
      unfolding parse_mask_eq by (rule if_not_P)
    then show "parse_mask F masks = PyMask (or_list (map (\<lambda>tok. the (token_value F tok)) masks))"
      by (simp add: vals)
  qed
  have perm: "\<forall>masks'. mset masks' = mset masks \<longrightarrow> parse_mask F masks' = parse_mask F masks"
    using parse_mask_mset by blast
  have move: "parse_mask F [''move''] = PyMask (IN_MOVED_FROM F OR IN_MOVED_TO F)"
    by (simp add: parse_mask_single token_value_def strip_literal token_table_def or_list_def
        ac_simps)
  have close: "parse_mask F [''close''] = PyMask (IN_CLOSE_WRITE F OR IN_CLOSE_NOWRITE F)"
    by (simp add: parse_mask_single token_value_def strip_literal token_table_def or_list_def
        ac_simps)
  have every: "parse_mask F [''all''] =
        PyMask (IN_ACCESS F OR IN_ATTRIB F OR IN_CLOSE_WRITE F OR IN_CLOSE_NOWRITE F
                OR IN_CREATE F OR IN_DELETE F OR IN_DELETE_SELF F OR IN_MODIFY F
                OR IN_MOVE_SELF F OR IN_MOVED_FROM F OR IN_MOVED_TO F OR IN_OPEN F)"
    by (simp add: parse_mask_single token_value_def strip_literal token_table_def or_list_def
        ac_simps)
  from int nonempty perm move close every show ?thesis by blast
qed

theorem parse_mask_is_or_of_table_witness:
  "parse_mask linux_flags [''create'', '' move'', ''all '', ''create''] = PyMask 0xFFF
   \<and> parse_mask linux_flags [''all '', ''create'', ''create'', '' move''] = PyMask 0xFFF
   \<and> parse_mask linux_flags [''delete'', ''create''] = PyMask 0x300"
proof -
  have val: "token_value linux_flags ''create'' = Some 0x100"
    "token_value linux_flags ''delete'' = Some 0x200"
    "token_value linux_flags '' move'' = Some 0xC0"
    "token_value linux_flags ''all '' = Some 0xFFF"
    by (simp_all add: token_value_def strip_def is_space_def token_table_def or_list_def
        linux_flags_def)
  have rec1: "\<forall>tok \<in> set [''create'', '' move'', ''all '', ''create'']. recognized linux_flags tok"
    by (simp add: recognized_def val)
  have rec2: "\<forall>tok \<in> set [''delete'', ''create'']. recognized linux_flags tok"
    by (simp add: recognized_def val)
  have perm: "mset [''all '', ''create'', ''create'', '' move''] =
      mset [''create'', '' move'', ''all '', ''create'']"
    by simp
  from parse_mask_is_or_of_table [OF rec1]
  have a: "parse_mask linux_flags [''create'', '' move'', ''all '', ''create''] = PyMask 0xFFF"
    by (simp add: val or_list_def)
  from parse_mask_is_or_of_table [OF rec1] perm
  have "parse_mask linux_flags [''all '', ''create'', ''create'', '' move''] =
      parse_mask linux_flags [''create'', '' move'', ''all '', ''create'']"
    by blast
  with a have b: "parse_mask linux_flags [''all '', ''create'', ''create'', '' move''] = PyMask 0xFFF"
    by simp
  from parse_mask_is_or_of_table [OF rec2]
  have c: "parse_mask linux_flags [''delete'', ''create''] = PyMask 0x300"
    by (simp add: val or_list_def)
  from a b c show ?thesis by blast
qed

text \<open>
  C5. When no token of the list is recognised (the empty list included), the result of
  \<open>_parse_mask\<close> is the value it starts from, \<open>False\<close>: the empty mask. The function has
  no failing branch: a token that is not recognised leaves the result as it is.
\<close>

theorem parse_mask_unrecognized:
  assumes "\<forall>tok \<in> set masks. \<not> recognized F tok"
  shows "parse_mask F masks = PyFalse
    \<and> (\<forall>tok ret. \<not> recognized F tok \<longrightarrow> parse_mask_step F tok ret = ret)"
proof -
  from assms have "\<forall>tok \<in> set masks. token_value F tok = None"
    by (simp add: recognized_def)
  then have "parse_mask F masks = PyFalse"
    by (simp add: parse_mask_eq)
  moreover have "\<forall>tok ret. \<not> recognized F tok \<longrightarrow> parse_mask_step F tok ret = ret"
    by (simp add: recognized_def parse_mask_step_table)
  ultimately show ?thesis by blast
qed

theorem parse_mask_unrecognized_witness:
  "parse_mask linux_flags [] = PyFalse
   \<and> parse_mask linux_flags [''Create'', ''creat'', [], ''mov e''] = PyFalse"
proof -
  have val: "token_value linux_flags ''Create'' = None"
    "token_value linux_flags ''creat'' = None"
    "token_value linux_flags [] = None"
    "token_value linux_flags ''mov e'' = None"
    by (simp_all add: token_value_def strip_def is_space_def token_table_def)
  have none0: "\<forall>tok \<in> set []. \<not> recognized linux_flags tok"
    by simp
  have none1: "\<forall>tok \<in> set [''Create'', ''creat'', [], ''mov e'']. \<not> recognized linux_flags tok"
    by (simp add: recognized_def val)
  from parse_mask_unrecognized [OF none0] parse_mask_unrecognized [OF none1]
  show ?thesis by blast
qed

subsection \<open>Whitespace around the tokens\<close>

lemma strip_pad:
  assumes l: "\<forall>c \<in> set l. is_space c" and r: "\<forall>c \<in> set r. is_space c"
  shows "strip (l @ tok @ r) = strip tok"
proof -
  have left: "dropWhile is_space (l @ tok @ r) = dropWhile is_space (tok @ r)"
    using l by (simp add: dropWhile_append2)
  show ?thesis
  proof (cases "\<forall>c \<in> set tok. is_space c")
    case True
    then have a: "dropWhile is_space (tok @ r) = []" and b: "dropWhile is_space tok = []"
      using r by auto
    show ?thesis
      unfolding strip_def left a b by simp
  next
    case False
    then obtain c where "c \<in> set tok" "\<not> is_space c" by blast
    then have "dropWhile is_space (tok @ r) = dropWhile is_space tok @ r"
      by (rule dropWhile_append1)
    moreover have "dropWhile is_space (rev r @ ys) = dropWhile is_space ys" for ys
      by (rule dropWhile_append2) (use r in simp)
    ultimately show ?thesis
      by (simp add: strip_def left)
  qed
qed

lemma parse_mask_step_strip:
  "strip a = strip b \<Longrightarrow> parse_mask_step F a = parse_mask_step F b"
  by (simp add: parse_mask_step_def fun_eq_iff)

lemma parse_mask_strip_eq:
  "map strip xs = map strip ys \<Longrightarrow> parse_mask F xs = parse_mask F ys"
proof -
  assume eq: "map strip xs = map strip ys"
  have "fold (parse_mask_step F) xs ret = fold (parse_mask_step F) ys ret" for ret
    using eq
  proof (induction xs arbitrary: ys ret)
    case Nil
    then show ?case by simp
  next
    case (Cons x xs)
    then obtain y ys' where ys: "ys = y # ys'" "strip x = strip y" "map strip xs = map strip ys'"
      by (cases ys) auto
    then show ?case
      using Cons.IH [of ys'] parse_mask_step_strip [of x y F] by simp
  qed
  then show ?thesis by (simp add: parse_mask_def)
qed

text \<open>
  C10. \<open>_parse_mask\<close> strips each token before it compares it: a list of tokens with
  whitespace before and after each of them gives the mask of the bare tokens. So the
  events string \<open>create, delete\<close>, split at the commas as \<open>run\<close> does, gives the mask of
  \<open>create,delete\<close>.
\<close>

theorem parse_mask_strips_tokens:
  assumes "\<forall>(l, tok, r) \<in> set padded. (\<forall>c \<in> set l. is_space c) \<and> (\<forall>c \<in> set r. is_space c)"
  shows "parse_mask F (map (\<lambda>(l, tok, r). l @ tok @ r) padded) =
           parse_mask F (map (\<lambda>(l, tok, r). tok) padded)
    \<and> parse_mask F (split CHR '','' ''create, delete'') =
        parse_mask F (split CHR '','' ''create,delete'')"
proof -
  have "map strip (map (\<lambda>(l, tok, r). l @ tok @ r) padded) =
      map strip (map (\<lambda>(l, tok, r). tok) padded)"
    using assms by (auto simp: strip_pad)
  then have first: "parse_mask F (map (\<lambda>(l, tok, r). l @ tok @ r) padded) =
      parse_mask F (map (\<lambda>(l, tok, r). tok) padded)"
    by (rule parse_mask_strip_eq)
  have "strip (''  '' @ ''delete'' @ []) = strip ''delete''"
    by (rule strip_pad) (simp_all add: is_space_def)
  then have "map strip (split CHR '','' ''create, delete'') =
      map strip (split CHR '','' ''create,delete'')"
    by (simp add: strip_def is_space_def)
  then have "parse_mask F (split CHR '','' ''create, delete'') =
      parse_mask F (split CHR '','' ''create,delete'')"
    by (rule parse_mask_strip_eq)
  with first show ?thesis by blast
qed

theorem parse_mask_strips_tokens_witness:
  "parse_mask linux_flags [''create'', [CHR 0x09] @ ''delete'' @ '' ''] =
     parse_mask linux_flags [''create'', ''delete'']
   \<and> parse_mask linux_flags [''create'', ''delete''] = PyMask 0x300"
proof -
  have pad: "\<forall>(l, tok, r) \<in> set [([], ''create'', []), ([CHR 0x09], ''delete'', '' '')].
      (\<forall>c \<in> set l. is_space c) \<and> (\<forall>c \<in> set r. is_space c)"
    by (simp add: is_space_def)
  have "parse_mask linux_flags [''create'', [CHR 0x09] @ ''delete'' @ '' ''] =
     parse_mask linux_flags [''create'', ''delete'']"
    using parse_mask_strips_tokens [OF pad, of linux_flags] by simp
  moreover have "parse_mask linux_flags [''create'', ''delete''] = PyMask 0x300"
    by (simp add: parse_mask_def parse_mask_step_def strip_def is_space_def linux_flags_def)
  ultimately show ?thesis by blast
qed

section \<open>Properties of the command expander and the handler\<close>

lemma str_int_0: "str_int 0 = ''0''"
  by code_simp

lemma kwargs_names:
  "fst ` set (kwargs event) = {''watched'', ''filename'', ''tflags'', ''nflags'', ''cookie''}"
  by (simp add: kwargs_def)

lemma kwargs_None:
  "map_of (kwargs event) n = None \<longleftrightarrow>
     n \<notin> {''watched'', ''filename'', ''tflags'', ''nflags'', ''cookie''}"
  by (simp only: map_of_eq_None_iff kwargs_names)

lemma kwargs_no_cookie:
  "cookie event = None \<Longrightarrow> kwargs event = kwargs (event\<lparr>cookie := Some 0\<rparr>)"
  by (simp add: kwargs_def)

lemma pieces_cookie: "pieces ''${cookie}'' = [Named ''cookie'']"
  by code_simp

lemma pieces_echo_filename:
  "pieces ''echo ${filename}'' =
     [Lit CHR ''e'', Lit CHR ''c'', Lit CHR ''h'', Lit CHR ''o'', Lit CHR '' '', Named ''filename'']"
  by code_simp

lemma pieces_echo_nope:
  "pieces ''echo ${nope}'' =
     [Lit CHR ''e'', Lit CHR ''c'', Lit CHR ''h'', Lit CHR ''o'', Lit CHR '' '', Named ''nope'']"
  by code_simp

lemma convert_unknown:
  assumes "Named n \<in> set ps" and "kws n = None"
  shows "\<exists>e. convert kws ps = Inl e
    \<and> (e = ValueError ''Invalid placeholder in string'' \<or> (\<exists>m. e = KeyError m \<and> kws m = None))"
  using assms
proof (induction kws ps rule: convert.induct)
  case (1 kws)
  then show ?case by simp
next
  case (2 kws c ps)
  then show ?case by (auto split: sum.splits)
next
  case (3 kws ps)
  then show ?case by (auto split: sum.splits)
next
  case (4 kws m ps)
  then show ?case by (cases "kws m") (auto split: sum.splits)
next
  case (5 kws ps)
  then show ?case by simp
qed

lemma call_run_command:
  "\<exists>label. call system self m event w =
     run_command system self event (print2 label (pathname event) w)"
  by (cases m)
    (auto simp: process_in_access_def process_in_attrib_def process_in_close_write_def
      process_in_close_nowrite_def process_in_create_def process_in_delete_def
      process_in_modify_def process_in_move_self_def process_in_moved_from_def
      process_in_moved_to_def process_in_open_def)

lemma run_command_calls:
  assumes "substitute (command self) (map_of (kwargs event)) = Inr cmd"
  shows "system_calls (snd (run_command system self event w)) = system_calls w @ [cmd]"
proof (cases "system cmd")
  case (Inl e)
  then show ?thesis
    using assms by (cases e) (simp_all add: run_command_def print1_def Let_def)
next
  case (Inr status)
  then show ?thesis
    using assms by (simp add: run_command_def Let_def)
qed

lemma pieces_literal_prefix:
  "CHR ''$'' \<notin> set pre \<Longrightarrow> pieces (pre @ rest) = map Lit pre @ pieces rest"
  by (induction pre) (auto simp: pieces.simps)

lemma pieces_cookie_prefix: "pieces (''${cookie}'' @ post) = Named ''cookie'' # pieces post"
  by (simp add: pieces.simps(2) [of "CHR ''$''"] braced_def is_id_char_def is_id_start_def)

lemma convert_literals:
  "convert kws (map Lit pre @ ps) =
     (case convert kws ps of Inl e \<Rightarrow> Inl e | Inr r \<Rightarrow> Inr (pre @ r))"
  by (induction pre) (simp_all split: sum.splits)

lemma substitute_literal: "CHR ''$'' \<notin> set t \<Longrightarrow> substitute t kws = Inr t"
  using pieces_literal_prefix [of t "[]"] convert_literals [of kws t "[]"]
  by (simp add: substitute_def pieces.simps)

lemma run_command_status:
  assumes "substitute (command self) (map_of (kwargs event)) = Inr cmd"
    and "system cmd = Inr status"
  shows "run_command system self event w = (Inr (), w\<lparr>system_calls := system_calls w @ [cmd]\<rparr>)"
  using assms by (simp add: run_command_def Let_def)

text \<open>
  C6. For an event without the attribute \<open>cookie\<close>, the keyword \<open>cookie\<close> of the
  substitution is the shell-quoted integer 0, the three characters \<open>'0'\<close>, and the
  template \<open>${cookie}\<close> expands to them without an error. For every template that holds
  \<open>${cookie}\<close> after a text without \<open>$\<close>, the command line that \<open>run_command\<close> hands to
  \<open>os.system\<close> is that text, then \<open>'0'\<close>, then the expansion of the rest; and for every
  template \<open>run_command\<close> does what it does for the same event with the cookie 0.
\<close>

theorem missing_cookie_is_zero:
  assumes "cookie event = None"
  shows "map_of (kwargs event) ''cookie'' = Some (shellquote (PyInt 0))
    \<and> shellquote (PyInt 0) = [sq, CHR ''0'', sq]
    \<and> substitute ''${cookie}'' (map_of (kwargs event)) = Inr [sq, CHR ''0'', sq]
    \<and> run_command system self event w = run_command system self (event\<lparr>cookie := Some 0\<rparr>) w
    \<and> (\<forall>pre post b.
          CHR ''$'' \<notin> set pre \<and> substitute post (map_of (kwargs event)) = Inr b \<longrightarrow>
            substitute (pre @ ''${cookie}'' @ post) (map_of (kwargs event)) =
              Inr (pre @ [sq, CHR ''0'', sq] @ b)
            \<and> system_calls (snd (run_command system \<lparr>command = pre @ ''${cookie}'' @ post\<rparr> event w)) =
                system_calls w @ [pre @ [sq, CHR ''0'', sq] @ b]
            \<and> (\<forall>status. system (pre @ [sq, CHR ''0'', sq] @ b) = Inr status \<longrightarrow>
                  run_command system \<lparr>command = pre @ ''${cookie}'' @ post\<rparr> event w =
                    (Inr (), w\<lparr>system_calls := system_calls w @ [pre @ [sq, CHR ''0'', sq] @ b]\<rparr>)))"
proof -
  have q: "shellquote (PyInt 0) = [sq, CHR ''0'', sq]"
    by (simp add: shellquote_def str_int_0)
  have k: "map_of (kwargs event) ''cookie'' = Some (shellquote (PyInt 0))"
    using assms by (simp add: kwargs_def)
  have s: "substitute ''${cookie}'' (map_of (kwargs event)) = Inr [sq, CHR ''0'', sq]"
    by (simp add: substitute_def pieces_cookie k q)
  have r: "run_command system self event w = run_command system self (event\<lparr>cookie := Some 0\<rparr>) w"
    using kwargs_no_cookie [OF assms] by (simp add: run_command_def)
  have t: "substitute (pre @ ''${cookie}'' @ post) (map_of (kwargs event)) =
              Inr (pre @ [sq, CHR ''0'', sq] @ b)
      \<and> system_calls (snd (run_command system \<lparr>command = pre @ ''${cookie}'' @ post\<rparr> event w)) =
          system_calls w @ [pre @ [sq, CHR ''0'', sq] @ b]
      \<and> (\<forall>status. system (pre @ [sq, CHR ''0'', sq] @ b) = Inr status \<longrightarrow>
            run_command system \<lparr>command = pre @ ''${cookie}'' @ post\<rparr> event w =
              (Inr (), w\<lparr>system_calls := system_calls w @ [pre @ [sq, CHR ''0'', sq] @ b]\<rparr>))"
    if pre: "CHR ''$'' \<notin> set pre" and post: "substitute post (map_of (kwargs event)) = Inr b"
    for pre post b
  proof -
    have p: "pieces (pre @ ''${cookie}'' @ post) = map Lit pre @ Named ''cookie'' # pieces post"
      using pieces_literal_prefix [OF pre, of "''${cookie}'' @ post"] pieces_cookie_prefix [of post]
      by simp
    have "convert (map_of (kwargs event)) (Named ''cookie'' # pieces post) =
        Inr ([sq, CHR ''0'', sq] @ b)"
      using post by (simp add: substitute_def k q)
    then have sub: "substitute (pre @ ''${cookie}'' @ post) (map_of (kwargs event)) =
        Inr (pre @ [sq, CHR ''0'', sq] @ b)"
      unfolding substitute_def p convert_literals by simp
    then have sub': "substitute (command \<lparr>command = pre @ ''${cookie}'' @ post\<rparr>)
        (map_of (kwargs event)) = Inr (pre @ [sq, CHR ''0'', sq] @ b)"
      by simp
    show ?thesis
      using sub run_command_calls [OF sub', of system w]
        run_command_status [where system = system and w = w, OF sub'] by blast
  qed
  from q k s r t show ?thesis by blast
qed

theorem missing_cookie_is_zero_witness:
  "run_command system_ok \<lparr>command = ''mv ${cookie} x''\<rparr> example_event world0 =
     (Inr (), world0\<lparr>system_calls := [''mv '' @ [sq, CHR ''0'', sq] @ '' x'']\<rparr>)
   \<and> substitute ''${cookie}'' (map_of (kwargs example_event)) = Inr [sq, CHR ''0'', sq]"
proof -
  have none: "cookie example_event = None"
    by (simp add: example_event_def)
  have pre: "CHR ''$'' \<notin> set ''mv ''"
    by simp
  have post: "substitute '' x'' (map_of (kwargs example_event)) = Inr '' x''"
    by (rule substitute_literal) simp
  have sys: "system_ok (''mv '' @ [sq, CHR ''0'', sq] @ '' x'') = Inr 0"
    by (simp add: system_ok_def)
  note th = missing_cookie_is_zero [OF none, of system_ok _ world0]
  from th pre post sys
  have "run_command system_ok \<lparr>command = ''mv '' @ ''${cookie}'' @ '' x''\<rparr> example_event world0 =
      (Inr (), world0\<lparr>system_calls := system_calls world0 @ [''mv '' @ [sq, CHR ''0'', sq] @ '' x'']\<rparr>)"
    by blast
  then have a: "run_command system_ok \<lparr>command = ''mv ${cookie} x''\<rparr> example_event world0 =
     (Inr (), world0\<lparr>system_calls := [''mv '' @ [sq, CHR ''0'', sq] @ '' x'']\<rparr>)"
    by (simp add: world0_def)
  from th have b: "substitute ''${cookie}'' (map_of (kwargs example_event)) = Inr [sq, CHR ''0'', sq]"
    by blast
  from a b show ?thesis by (rule conjI)
qed

text \<open>
  C7, where the source falls short of the claim. \<open>os.system\<close> reports a command that
  could not be launched through the status it returns (32512 when the shell does not
  find the command, -1 when no process could be created); it does not raise
  \<open>OSError\<close>. \<open>run_command\<close> drops the status: whatever it is, the method returns
  normally and writes nothing, so the failure is not logged and the command text
  appears nowhere in the output.
\<close>

theorem launch_failure_not_logged:
  assumes "substitute (command self) (map_of (kwargs event)) = Inr cmd"
    and "system cmd = Inr status"
  shows "run_command system self event w = (Inr (), w\<lparr>system_calls := system_calls w @ [cmd]\<rparr>)
    \<and> stdout (snd (run_command system self event w)) = stdout w"
  using run_command_status [where system = system, OF assms, of w] by simp

theorem launch_failure_not_logged_witness:
  "run_command system_not_found \<lparr>command = ''echo ${filename}''\<rparr> example_event world0 =
     (Inr (), world0\<lparr>system_calls := [''echo '' @ [sq] @ ''/tmp/x/a.txt'' @ [sq]]\<rparr>)
   \<and> stdout (snd (run_command system_not_found \<lparr>command = ''echo ${filename}''\<rparr> example_event world0)) = []"
proof -
  have sub: "substitute (command \<lparr>command = ''echo ${filename}''\<rparr>) (map_of (kwargs example_event)) =
      Inr (''echo '' @ [sq] @ ''/tmp/x/a.txt'' @ [sq])"
    by (simp add: substitute_def pieces_echo_filename kwargs_def shellquote_def example_event_def)
  have sys: "system_not_found (''echo '' @ [sq] @ ''/tmp/x/a.txt'' @ [sq]) = Inr 32512"
    by (simp add: system_not_found_def)
  from launch_failure_not_logged [where system = system_not_found, OF sub sys, of world0]
  show ?thesis
    by (simp add: world0_def)
qed

text \<open>
  C3, as the source has it. When the command template refers to a name that is not one
  of the five keywords, \<open>substitute\<close> raises (\<open>KeyError\<close> for a name that is not a
  keyword, or \<open>ValueError\<close> for an invalid placeholder met before it), and nothing in
  \<open>run_command\<close> or in the method that called it catches the exception: it leaves the
  method. No command is run for the event and no line about the error is written; the
  only line is the one the method printed before it called \<open>run_command\<close>.
\<close>

theorem unknown_placeholder_propagates:
  assumes "Named n \<in> set (pieces (command self))"
    and "n \<notin> {''watched'', ''filename'', ''tflags'', ''nflags'', ''cookie''}"
  shows "\<exists>e. run_command system self event w = (Inl e, w)
      \<and> (\<exists>label. call system self m event w = (Inl e, print2 label (pathname event) w))
      \<and> (e = ValueError ''Invalid placeholder in string''
         \<or> (\<exists>k. e = KeyError k \<and> k \<notin> {''watched'', ''filename'', ''tflags'', ''nflags'', ''cookie''}))"
proof -
  have none: "map_of (kwargs event) n = None"
    unfolding kwargs_None by (rule assms(2))
  from convert_unknown [where kws = "map_of (kwargs event)", OF assms(1) none]
  obtain e where conv: "convert (map_of (kwargs event)) (pieces (command self)) = Inl e"
    and e: "e = ValueError ''Invalid placeholder in string''
      \<or> (\<exists>k. e = KeyError k \<and> map_of (kwargs event) k = None)"
    by (elim exE conjE)
  have rc: "run_command system self event v = (Inl e, v)" for v
    using conv by (simp add: run_command_def substitute_def)
  obtain label where "call system self m event w =
      run_command system self event (print2 label (pathname event) w)"
    using call_run_command [of system self m event w] by (elim exE)
  then have "call system self m event w = (Inl e, print2 label (pathname event) w)"
    by (simp only: rc)
  then have c: "\<exists>label. call system self m event w = (Inl e, print2 label (pathname event) w)"
    by (rule exI)
  have kind: "e = ValueError ''Invalid placeholder in string''
      \<or> (\<exists>k. e = KeyError k \<and> k \<notin> {''watched'', ''filename'', ''tflags'', ''nflags'', ''cookie''})"
    using e unfolding kwargs_None .
  show ?thesis
    by (rule exI [of _ e]) (intro conjI rc c kind)
qed

theorem unknown_placeholder_propagates_witness:
  "\<exists>e. run_command system_ok \<lparr>command = ''echo ${nope}''\<rparr> example_event world0 = (Inl e, world0)"
proof -
  have ref: "Named ''nope'' \<in> set (pieces (command \<lparr>command = ''echo ${nope}''\<rparr>))"
    by (simp add: pieces_echo_nope)
  have unknown: "''nope'' \<notin> {''watched'', ''filename'', ''tflags'', ''nflags'', ''cookie''}"
    by simp
  from unknown_placeholder_propagates [OF ref unknown, of system_ok example_event world0 in_create]
  obtain e where "run_command system_ok \<lparr>command = ''echo ${nope}''\<rparr> example_event world0 = (Inl e, world0)"
    by (elim exE conjE)
  then show ?thesis by (rule exI)
qed

text \<open>
  The claim C3 as the specification words it fails on the source: for the template
  \<open>echo ${nope}\<close> the method for a create event ends with the \<open>KeyError\<close>, and the output
  holds the line of the event and nothing about the error.
\<close>

theorem template_error_not_caught:
  "call system_ok \<lparr>command = ''echo ${nope}''\<rparr> in_create example_event world0 =
     (Inl (KeyError ''nope''), world0\<lparr>stdout := [''Creating:  /tmp/x/a.txt'']\<rparr>)"
  by (simp add: process_in_create_def run_command_def substitute_def pieces_echo_nope kwargs_def
      print2_def world0_def example_event_def)

lemma process_in_create_example:
  "system_calls (snd (process_in_create system \<lparr>command = ''echo ${filename}''\<rparr> example_event w)) =
     system_calls w @ [''echo '' @ [sq] @ ''/tmp/x/a.txt'' @ [sq]]"
proof -
  have "substitute (command \<lparr>command = ''echo ${filename}''\<rparr>) (map_of (kwargs example_event)) =
      Inr (''echo '' @ [sq] @ ''/tmp/x/a.txt'' @ [sq])"
    by (simp add: substitute_def pieces_echo_filename kwargs_def shellquote_def example_event_def)
  then show ?thesis
    by (simp add: process_in_create_def run_command_calls print2_def)
qed

lemma example_mask: "parse_mask linux_flags [''create'', ''delete''] = PyMask 0x300"
  by (simp add: parse_mask_def parse_mask_step_def strip_def is_space_def linux_flags_def)

lemma example_turn:
  "turn library_ok linux_flags example_config ''job1'' =
     Inr \<lparr>watch_manager = \<lparr>folder = ''/tmp/x'', w_mask = PyMask 0x300, rec = False,
                             auto_add = False, exclude_filter = None\<rparr>,
          handler = \<lparr>command = ''echo ${filename}''\<rparr>\<rparr>"
  by (simp add: turn_def job_def getboolean_def lower_def lower_char_def example_config_def
      parsed_def example_options_def daemon_options_def example_mask strip_def library_ok_def)

text \<open>
  C9, where the source falls short of the claim. The section of the example gives a
  notifier whose handler holds the template \<open>echo ${filename}\<close>, and the method
  \<open>process_in_create\<close>, were it called for the file \<open>/tmp/x/a.txt\<close>, would hand
  \<open>echo '/tmp/x/a.txt'\<close> to \<open>os.system\<close>. But for an event of the kind \<open>IN_CREATE\<close> the
  handler looks for \<open>process_IN_CREATE\<close>, which the source does not define: it names
  the method \<open>process_in_create\<close>. The event goes to the inherited \<open>process_default\<close>:
  nothing is printed and no command is dispatched.
\<close>

theorem create_event_not_dispatched:
  "turn library_ok linux_flags example_config ''job1'' =
     Inr \<lparr>watch_manager = \<lparr>folder = ''/tmp/x'', w_mask = PyMask 0x300, rec = False,
                             auto_add = False, exclude_filter = None\<rparr>,
          handler = \<lparr>command = ''echo ${filename}''\<rparr>\<rparr>
   \<and> getattr ''process_IN_CREATE'' = None
   \<and> getattr ''process_in_create'' = Some (Own in_create)
   \<and> dispatch system \<lparr>command = ''echo ${filename}''\<rparr> ''IN_CREATE'' example_event w = (Inr (), w)
   \<and> system_calls (snd (dispatch system \<lparr>command = ''echo ${filename}''\<rparr> ''IN_CREATE'' example_event w)) =
       system_calls w"
proof -
  have miss: "getattr ''process_IN_CREATE'' = None"
    by (simp add: getattr_def)
  have own: "getattr ''process_in_create'' = Some (Own in_create)"
    by (simp add: getattr_def)
  have d: "dispatch system \<lparr>command = ''echo ${filename}''\<rparr> ''IN_CREATE'' example_event w = (Inr (), w)"
    using miss by (simp add: dispatch_def)
  then have c: "system_calls (snd (dispatch system \<lparr>command = ''echo ${filename}''\<rparr> ''IN_CREATE'' example_event w)) =
       system_calls w"
    by simp
  show ?thesis
    by (intro conjI) (fact example_turn, fact miss, fact own, fact d, fact c)
qed

section \<open>Properties of the start of the daemon\<close>

lemma turn_needs_watch:
  assumes "turn L F cfg section = Inr n"
  shows "\<exists>fld. get cfg section ''watch'' = Inr fld"
proof (cases "get cfg section ''watch''")
  case (Inl e)
  then have "job L F cfg section = Inl e \<or> (\<exists>e'. job L F cfg section = Inl e')"
    by (cases "get cfg section ''events''") (simp_all add: job_def)
  with assms show ?thesis
    by (auto simp: turn_def)
next
  case (Inr fld)
  then show ?thesis by simp
qed

lemma setup_section_ok:
  assumes "turn L F cfg section = Inr n"
  shows "fst (setup_section L F cfg section w) = Inr ()
    \<and> notifiers (snd (setup_section L F cfg section w)) = notifiers w @ [n]
    \<and> started (snd (setup_section L F cfg section w)) = started w"
proof -
  obtain fld where fld: "get cfg section ''watch'' = Inr fld"
    using turn_needs_watch [OF assms] by (elim exE)
  from assms obtain wdd wm h where j: "job L F cfg section = Inr (wdd, wm, h)"
    and t: "ThreadedNotifier L section = None" and n: "n = \<lparr>watch_manager = wm, handler = h\<rparr>"
    by (auto simp: turn_def split: sum.splits option.splits)
  show ?thesis
    by (simp add: setup_section_def fld j t n log_def Let_def)
qed

lemma setup_section_fail:
  assumes "turn L F cfg section = Inl e"
  shows "(\<exists>e'. fst (setup_section L F cfg section w) = Inl e')
    \<and> started (snd (setup_section L F cfg section w)) = started w"
proof (cases "get cfg section ''watch''")
  case (Inl e')
  then show ?thesis by (simp add: setup_section_def)
next
  case (Inr fld)
  show ?thesis
  proof (cases "job L F cfg section")
    case (Inl e')
    with Inr show ?thesis by (simp add: setup_section_def log_def Let_def)
  next
    case (Inr r)
    obtain wdd wm h where r: "r = (wdd, wm, h)" by (cases r)
    with Inr assms obtain e' where "ThreadedNotifier L section = Some e'"
      by (auto simp: turn_def split: option.splits)
    with Inr r \<open>get cfg section ''watch'' = Inr fld\<close> show ?thesis
      by (simp add: setup_section_def log_def Let_def)
  qed
qed

lemma setup_section_started:
  "started (snd (setup_section L F cfg section w)) = started w"
proof (cases "turn L F cfg section")
  case (Inl e)
  then show ?thesis by (simp add: setup_section_fail)
next
  case (Inr n)
  then show ?thesis by (simp add: setup_section_ok)
qed

lemma setup_sections_started:
  "started (snd (setup_sections L F cfg secs w)) = started w"
proof (induction secs arbitrary: w)
  case Nil
  then show ?case by simp
next
  case (Cons s secs)
  obtain res w' where step: "setup_section L F cfg s w = (res, w')"
    by (cases "setup_section L F cfg s w")
  then have "started w' = started w"
    using setup_section_started [of L F cfg s w] by simp
  with step Cons.IH [of w'] show ?case
    by (cases res) simp_all
qed

lemma setup_sections_ok:
  assumes "\<forall>s \<in> set secs. \<exists>n. turn L F cfg s = Inr n"
  shows "fst (setup_sections L F cfg secs w) = Inr ()
    \<and> notifiers (snd (setup_sections L F cfg secs w)) =
        notifiers w @ map (\<lambda>s. projr (turn L F cfg s)) secs"
  using assms
proof (induction secs arbitrary: w)
  case Nil
  then show ?case by simp
next
  case (Cons s secs)
  then obtain n where n: "turn L F cfg s = Inr n" by auto
  obtain res w' where step: "setup_section L F cfg s w = (res, w')"
    by (cases "setup_section L F cfg s w")
  with setup_section_ok [OF n, of w] have res: "res = Inr ()" and ns: "notifiers w' = notifiers w @ [n]"
    by simp_all
  from Cons.prems have "\<forall>s \<in> set secs. \<exists>n. turn L F cfg s = Inr n" by simp
  from Cons.IH [OF this, of w'] step res ns n show ?case by simp
qed

lemma setup_sections_fail:
  assumes "\<exists>s \<in> set secs. \<exists>e. turn L F cfg s = Inl e"
  shows "\<exists>e. fst (setup_sections L F cfg secs w) = Inl e"
  using assms
proof (induction secs arbitrary: w)
  case Nil
  then show ?case by simp
next
  case (Cons s secs)
  obtain res w' where step: "setup_section L F cfg s w = (res, w')"
    by (cases "setup_section L F cfg s w")
  show ?case
  proof (cases "turn L F cfg s")
    case (Inl e)
    from setup_section_fail [OF Inl, of w] step obtain e' where "res = Inl e'" by auto
    with step show ?thesis by simp
  next
    case (Inr n)
    with setup_section_ok [OF Inr, of w] step have res: "res = Inr ()" by simp
    from Inr Cons.prems have "\<exists>s \<in> set secs. \<exists>e. turn L F cfg s = Inl e" by auto
    from Cons.IH [OF this, of w'] step res show ?thesis by simp
  qed
qed

lemma start_all_ok:
  assumes "\<forall>i < length ns. start L (k + i) = None"
  shows "start_all L k ns w = (Inr (), w\<lparr>started := started w @ ns\<rparr>)"
  using assms
proof (induction ns arbitrary: k w)
  case Nil
  then show ?case by simp
next
  case (Cons n ns)
  from Cons.prems have first: "start L k = None"
    by (metis add.right_neutral length_greater_0_conv list.distinct(1))
  have "\<forall>i < length ns. start L (Suc k + i) = None"
  proof (intro allI impI)
    fix i assume "i < length ns"
    then have "Suc i < length (n # ns)" by simp
    with Cons.prems have "start L (k + Suc i) = None" by blast
    then show "start L (Suc k + i) = None" by simp
  qed
  from Cons.IH [OF this, of "w\<lparr>started := started w @ [n]\<rparr>"] first show ?case
    by simp
qed

lemma turn_descriptors:
  "turn (L\<lparr>add_watch := \<lambda>s' wm. case add_watch L s' wm of
            Inl e \<Rightarrow> Inl e | Inr wdd \<Rightarrow> Inr (map (\<lambda>(p, d). (p, - 1)) wdd)\<rparr>) F cfg s =
   turn L F cfg s"
  by (simp add: turn_def job_def Let_def split: sum.splits option.splits)

text \<open>
  C2, as the source has it. \<open>run\<close> sets up the sections one after the other and starts
  the notifiers only after the last one. When the body of the loop returns for every
  section, and the threads start, \<open>run\<close> returns normally and has started one notifier
  for each section, in the order of the sections. The body does not look at the watch
  descriptors that \<open>add_watch\<close> answers with: a path that could not be watched, which
  \<open>add_watch\<close> reports by a negative descriptor, changes nothing, and the notifier of
  that section is built and started like the others. When the body raises for some
  section, the exception leaves \<open>run\<close>, and no notifier has been started, neither of
  that section nor of any other.
\<close>

theorem run_all_or_nothing:
  "((\<forall>s \<in> set (sections cfg). \<exists>n. turn L F cfg s = Inr n)
      \<and> (\<forall>k < length (sections cfg). start L k = None) \<longrightarrow>
      fst (run L F cfg w) = Inr ()
      \<and> started (snd (run L F cfg w)) =
          started w @ map (\<lambda>s. projr (turn L F cfg s)) (sections cfg))
   \<and> ((\<exists>s \<in> set (sections cfg). \<exists>e. turn L F cfg s = Inl e) \<longrightarrow>
      (\<exists>e. fst (run L F cfg w) = Inl e)
      \<and> started (snd (run L F cfg w)) = started w)
   \<and> (\<forall>s. turn (L\<lparr>add_watch := \<lambda>s' wm. case add_watch L s' wm of
                  Inl e \<Rightarrow> Inl e | Inr wdd \<Rightarrow> Inr (map (\<lambda>(p, d). (p, - 1)) wdd)\<rparr>) F cfg s =
            turn L F cfg s)"
proof (intro conjI impI allI)
  define w0 where "w0 = (log ''Daemon started'' w)\<lparr>wdds := [], notifiers := []\<rparr>"
  have w0: "started w0 = started w" "notifiers w0 = []"
    by (simp_all add: w0_def log_def)
  obtain res w1 where loop: "setup_sections L F cfg (sections cfg) w0 = (res, w1)"
    by (cases "setup_sections L F cfg (sections cfg) w0")
  have st: "started w1 = started w"
    using setup_sections_started [of L F cfg "sections cfg" w0] loop w0 by simp
  have run_eq: "run L F cfg w =
      (case res of Inl e \<Rightarrow> (Inl e, w1) | Inr u \<Rightarrow> start_all L 0 (notifiers w1) w1)"
    by (simp add: run_def w0_def [symmetric] loop split: sum.splits)
  {
    assume ok: "(\<forall>s \<in> set (sections cfg). \<exists>n. turn L F cfg s = Inr n)
      \<and> (\<forall>k < length (sections cfg). start L k = None)"
    from ok have turns: "\<forall>s \<in> set (sections cfg). \<exists>n. turn L F cfg s = Inr n"
      by (rule conjunct1)
    from setup_sections_ok [OF turns, of w0] loop w0
    have res: "res = Inr ()"
      and n: "notifiers w1 = map (\<lambda>s. projr (turn L F cfg s)) (sections cfg)"
      by simp_all
    from ok have "\<forall>i < length (notifiers w1). start L (0 + i) = None"
      by (simp add: n)
    from start_all_ok [OF this, of w1]
    have all: "start_all L 0 (notifiers w1) w1 = (Inr (), w1\<lparr>started := started w1 @ notifiers w1\<rparr>)" .
    have final: "run L F cfg w = (Inr (), w1\<lparr>started := started w1 @ notifiers w1\<rparr>)"
      by (simp add: run_eq res all)
    show "fst (run L F cfg w) = Inr ()"
      by (simp add: final)
    show "started (snd (run L F cfg w)) =
        started w @ map (\<lambda>s. projr (turn L F cfg s)) (sections cfg)"
      by (simp add: final st n)
  }
  {
    assume bad: "\<exists>s \<in> set (sections cfg). \<exists>e. turn L F cfg s = Inl e"
    from setup_sections_fail [OF bad, of w0] loop obtain e where res: "res = Inl e"
      by auto
    show "\<exists>e. fst (run L F cfg w) = Inl e"
      by (simp add: run_eq res)
    show "started (snd (run L F cfg w)) = started w"
      by (simp add: run_eq res st)
  }
  show "turn (L\<lparr>add_watch := \<lambda>s' wm. case add_watch L s' wm of
            Inl e \<Rightarrow> Inl e | Inr wdd \<Rightarrow> Inr (map (\<lambda>(p, d). (p, - 1)) wdd)\<rparr>) F cfg s =
      turn L F cfg s" for s
    by (rule turn_descriptors)
qed

lemma missing_path_turns:
  "turn library_ok linux_flags missing_path_config ''gone'' =
     Inr \<lparr>watch_manager = \<lparr>folder = ''/nonexistent'', w_mask = PyMask 2, rec = False,
                             auto_add = False, exclude_filter = None\<rparr>,
          handler = \<lparr>command = ''true''\<rparr>\<rparr>"
  "turn library_ok linux_flags missing_path_config ''job1'' =
     Inr \<lparr>watch_manager = \<lparr>folder = ''/tmp/x'', w_mask = PyMask 0x300, rec = False,
                             auto_add = False, exclude_filter = None\<rparr>,
          handler = \<lparr>command = ''echo ${filename}''\<rparr>\<rparr>"
  by (simp_all add: turn_def job_def getboolean_def lower_def lower_char_def
      missing_path_config_def parsed_def example_options_def daemon_options_def example_mask
      parse_mask_def parse_mask_step_def is_space_def linux_flags_def strip_def library_ok_def)

lemma missing_path_descriptor:
  "job library_ok linux_flags missing_path_config ''gone'' =
     Inr ([(''/nonexistent'', - 1)],
          \<lparr>folder = ''/nonexistent'', w_mask = PyMask 2, rec = False,
            auto_add = False, exclude_filter = None\<rparr>,
          \<lparr>command = ''true''\<rparr>)"
  by (simp add: job_def getboolean_def lower_def lower_char_def
      missing_path_config_def parsed_def daemon_options_def
      parse_mask_def parse_mask_step_def is_space_def linux_flags_def strip_def library_ok_def)

lemma broken_turn_good:
  "turn library_ok linux_flags broken_config ''job1'' =
     Inr \<lparr>watch_manager = \<lparr>folder = ''/tmp/x'', w_mask = PyMask 0x300, rec = False,
                             auto_add = False, exclude_filter = None\<rparr>,
          handler = \<lparr>command = ''echo ${filename}''\<rparr>\<rparr>"
  by (simp add: turn_def job_def getboolean_def lower_def lower_char_def broken_config_def
      parsed_def example_options_def daemon_options_def example_mask strip_def library_ok_def)

lemma broken_job_bad:
  "job library_ok linux_flags broken_config ''bad'' = Inl (NoOptionError ''recursive'' ''bad'')"
  by (simp add: job_def getboolean_def broken_config_def parsed_def daemon_options_def)

lemma broken_turn_bad:
  "turn library_ok linux_flags broken_config ''bad'' = Inl (NoOptionError ''recursive'' ''bad'')"
  by (simp add: turn_def broken_job_bad)

lemma broken_watch_bad: "get broken_config ''bad'' ''watch'' = Inr ''/tmp/y''"
  by (simp add: broken_config_def parsed_def)

theorem run_all_or_nothing_witness:
  "fst (run library_ok linux_flags missing_path_config world0) = Inr ()
   \<and> started (snd (run library_ok linux_flags missing_path_config world0)) =
       [\<lparr>watch_manager = \<lparr>folder = ''/nonexistent'', w_mask = PyMask 2, rec = False,
                            auto_add = False, exclude_filter = None\<rparr>,
         handler = \<lparr>command = ''true''\<rparr>\<rparr>,
        \<lparr>watch_manager = \<lparr>folder = ''/tmp/x'', w_mask = PyMask 0x300, rec = False,
                            auto_add = False, exclude_filter = None\<rparr>,
         handler = \<lparr>command = ''echo ${filename}''\<rparr>\<rparr>]
   \<and> (\<exists>e. fst (run library_ok linux_flags broken_config world0) = Inl e)
   \<and> started (snd (run library_ok linux_flags broken_config world0)) = []"
proof -
  have secs: "sections missing_path_config = [''gone'', ''job1'']"
    "sections broken_config = [''bad'', ''job1'']"
    by (simp_all add: missing_path_config_def broken_config_def parsed_def)
  have turns: "\<forall>s \<in> set (sections missing_path_config).
        \<exists>n. turn library_ok linux_flags missing_path_config s = Inr n"
    by (simp add: secs missing_path_turns)
  have starts: "\<forall>k < length (sections missing_path_config). start library_ok k = None"
    by (simp add: library_ok_def)
  from turns starts have ok: "(\<forall>s \<in> set (sections missing_path_config).
        \<exists>n. turn library_ok linux_flags missing_path_config s = Inr n)
      \<and> (\<forall>k < length (sections missing_path_config). start library_ok k = None)"
    by (rule conjI)
  have bad: "\<exists>s \<in> set (sections broken_config). \<exists>e. turn library_ok linux_flags broken_config s = Inl e"
    by (simp add: secs broken_turn_bad)
  have st: "started world0 = []"
    by (simp add: world0_def)
  from run_all_or_nothing [of missing_path_config library_ok linux_flags world0] ok
  have a: "fst (run library_ok linux_flags missing_path_config world0) = Inr ()"
    and b: "started (snd (run library_ok linux_flags missing_path_config world0)) =
       [\<lparr>watch_manager = \<lparr>folder = ''/nonexistent'', w_mask = PyMask 2, rec = False,
                            auto_add = False, exclude_filter = None\<rparr>,
         handler = \<lparr>command = ''true''\<rparr>\<rparr>,
        \<lparr>watch_manager = \<lparr>folder = ''/tmp/x'', w_mask = PyMask 0x300, rec = False,
                            auto_add = False, exclude_filter = None\<rparr>,
         handler = \<lparr>command = ''echo ${filename}''\<rparr>\<rparr>]"
    by (simp_all add: secs missing_path_turns st)
  from run_all_or_nothing [of broken_config library_ok linux_flags world0] bad
  have c: "\<exists>e. fst (run library_ok linux_flags broken_config world0) = Inl e"
    and d: "started (snd (run library_ok linux_flags broken_config world0)) = []"
    by (simp_all add: st)
  show ?thesis
    by (intro conjI) (fact a, fact b, fact c, fact d)
qed

text \<open>
  The claim C2 as the specification words it fails on the source. In a configuration
  of two sections whose first lacks the option \<open>recursive\<close>, the body of the loop
  returns for the second section, but \<open>run\<close> ends with the error of the first: nothing
  is started, and the output holds no line about the failure.
\<close>

theorem one_failure_stops_all:
  "turn library_ok linux_flags broken_config ''job1'' =
     Inr \<lparr>watch_manager = \<lparr>folder = ''/tmp/x'', w_mask = PyMask 0x300, rec = False,
                             auto_add = False, exclude_filter = None\<rparr>,
          handler = \<lparr>command = ''echo ${filename}''\<rparr>\<rparr>
   \<and> run library_ok linux_flags broken_config world0 =
       (Inl (NoOptionError ''recursive'' ''bad''),
        world0\<lparr>stdout := [''Daemon started'', ''bad: /tmp/y'']\<rparr>)"
proof -
  have secs: "sections broken_config = [''bad'', ''job1'']"
    by (simp add: broken_config_def parsed_def)
  have "run library_ok linux_flags broken_config world0 =
       (Inl (NoOptionError ''recursive'' ''bad''),
        world0\<lparr>stdout := [''Daemon started'', ''bad: /tmp/y'']\<rparr>)"
    by (simp add: run_def secs setup_section_def broken_watch_bad broken_job_bad log_def world0_def)
  with broken_turn_good show ?thesis by (rule conjI)
qed

end
